theory Spec2Isabelle
  imports Main
begin

section \<open>JavaScript values\<close>

text \<open>
  The pages handle the backend's answers as untyped JavaScript values. Numbers are
  the integers of JSON; objects are association lists in which the first binding of a
  key is the one that is read.
\<close>

datatype jsval =
    JUndefined
  | JNull
  | JBool bool
  | JNum int
  | JStr string
  | JArr "jsval list"
  | JObj "(string \<times> jsval) list"

text \<open>Truthiness, as \<open>!v\<close>, \<open>a || b\<close> and \<open>a && b\<close> test it.\<close>

fun truthy :: "jsval \<Rightarrow> bool" where
  "truthy JUndefined = False"
| "truthy JNull = False"
| "truthy (JBool b) = b"
| "truthy (JNum n) = (n \<noteq> 0)"
| "truthy (JStr s) = (s \<noteq> [])"
| "truthy (JArr xs) = True"
| "truthy (JObj kvs) = True"

text \<open>\<open>a || b\<close>\<close>

definition or_else :: "jsval \<Rightarrow> jsval \<Rightarrow> jsval" where
  "or_else a b = (if truthy a then a else b)"

text \<open>
  Reading a property of a value that is neither \<open>null\<close> nor \<open>undefined\<close>. The
  keys the pages read (\<open>detail\<close>, \<open>company_name\<close>, \<open>job_title\<close>, \<open>cover_letter\<close>)
  are no built-in property of a string, number, boolean or array, so only an object
  can hold them.
\<close>

fun get_prop :: "jsval \<Rightarrow> string \<Rightarrow> jsval" where
  "get_prop (JObj kvs) k = (case map_of kvs k of Some v \<Rightarrow> v | None \<Rightarrow> JUndefined)"
| "get_prop v k = JUndefined"

definition nullish :: "jsval \<Rightarrow> bool" where
  "nullish v = (v = JUndefined \<or> v = JNull)"

text \<open>\<open>v?.k\<close>\<close>

definition opt_chain :: "jsval \<Rightarrow> string \<Rightarrow> jsval" where
  "opt_chain v k = (if nullish v then JUndefined else get_prop v k)"

text \<open>\<open>v.k\<close>, which throws a TypeError on \<open>null\<close> and \<open>undefined\<close>.\<close>

datatype thrown = TypeError | AxiosError "jsval option"

definition get_member :: "jsval \<Rightarrow> string \<Rightarrow> thrown + jsval" where
  "get_member v k = (if nullish v then Inl TypeError else Inr (get_prop v k))"

section \<open>Network calls and other effects\<close>

text \<open>
  A call made with axios either resolves with the response (of which the pages read
  \<open>response.data\<close> only) or rejects with an error whose \<open>response\<close> is present
  when the server answered with an error status and absent otherwise.
\<close>

datatype 'a outcome = Resolved 'a | Rejected "jsval option"

text \<open>\<open>error.response?.data?.detail\<close>\<close>

fun error_detail :: "thrown \<Rightarrow> jsval" where
  "error_detail TypeError = JUndefined"
| "error_detail (AxiosError None) = JUndefined"
| "error_detail (AxiosError (Some d)) = opt_chain d ''detail''"

record jsfile =
  name :: string
  content :: string

datatype endpoint =
    AnalyzeJob
  | AnalyzeResume
  | GenerateCoverLetter
  | GeneratePdf
  | ApplicationsGet
  | ApplicationsPost
  | ApplicationsDelete jsval

datatype body = NoBody | Json jsval | FormData jsfile

text \<open>
  What a handler does to the world outside the component's state. \<open>SaveAs c d\<close>
  is the click on a temporary link whose target is a blob of \<open>d\<close> and whose
  download name is \<open>Bewerbung_\<close>, then \<open>c\<close> as the template literal prints it, then
  \<open>.pdf\<close>. \<open>CallLogin\<close>, \<open>CallRegister\<close> and \<open>CallLogout\<close> are the calls of
  the functions of the authentication context, \<open>CloseModal\<close> the call of the
  \<open>onClose\<close> a modal was given.
\<close>

datatype effect =
    ToastError jsval
  | ToastSuccess jsval
  | Request endpoint body
  | SaveAs jsval jsval
  | Navigate string
  | CallLogin string string
  | CallRegister string string string
  | CallLogout
  | CloseModal

fun is_request :: "effect \<Rightarrow> bool" where
  "is_request (Request ep b) = True"
| "is_request e = False"

fun is_toast :: "effect \<Rightarrow> bool" where
  "is_toast (ToastError m) = True"
| "is_toast (ToastSuccess m) = True"
| "is_toast e = False"

section \<open>Strings\<close>

text \<open>
  Strings are byte lists (UTF-8). \<open>toLowerCase\<close> changes the letters A to Z and no
  other byte below 128; the bytes of a character beyond ASCII are all above 127, and
  no such character has \<open>.\<close>, \<open>p\<close>, \<open>d\<close> or \<open>f\<close> as its lower case, so the test of
  the file name reads the same on bytes.
\<close>

definition lower_char :: "char \<Rightarrow> char" where
  "lower_char c =
     (case map_of (zip ''ABCDEFGHIJKLMNOPQRSTUVWXYZ'' ''abcdefghijklmnopqrstuvwxyz'') c of
        Some l \<Rightarrow> l
      | None \<Rightarrow> c)"

definition toLowerCase :: "string \<Rightarrow> string" where
  "toLowerCase s = map lower_char s"

definition endsWith :: "string \<Rightarrow> string \<Rightarrow> bool" where
  "endsWith s suf = (take (length suf) (rev s) = rev suf)"

text \<open>The messages with a letter beyond ASCII.\<close>

definition msg_geloescht :: string where
  "msg_geloescht = ''Bewerbung gel'' @ [char_of (195 :: nat), char_of (182 :: nat)] @ ''scht''"

definition msg_loeschen :: string where
  "msg_loeschen = ''Fehler beim L'' @ [char_of (195 :: nat), char_of (182 :: nat)] @ ''schen''"

section \<open>The generator page\<close>

text \<open>
  The continuation of a handler that waits for its call: which handler it is, the
  handle of the progress timer it started, and for \<open>downloadPdf\<close> the
  \<open>jobAnalysis\<close> of the render it was called in, which it reads again after the
  call.
\<close>

datatype continuation =
    AfterAnalyzeJob nat
  | AfterAnalyzeResume nat
  | AfterGenerate nat
  | AfterDownload jsval
  | AfterSave

text \<open>
  The component's state (the nine \<open>useState\<close> cells) and what the runtime holds for
  it: the calls that wait for their answer, the running \<open>setInterval\<close> timers with
  their increment, the next free handle, and whether the page is still on screen.
\<close>

record page =
  currentStep :: nat
  loading :: bool
  progress :: nat
  progressText :: string
  jobUrl :: string
  jobAnalysis :: jsval
  resumeFile :: "jsfile option"
  resumeData :: jsval
  coverLetter :: jsval
  calls :: "(nat \<times> continuation) list"
  intervals :: "(nat \<times> nat) list"
  nextId :: nat
  mounted :: bool

definition initial :: page where
  "initial = \<lparr> currentStep = 1, loading = False, progress = 0, progressText = [],
     jobUrl = [], jobAnalysis = JNull, resumeFile = None, resumeData = JNull,
     coverLetter = JStr [], calls = [], intervals = [], nextId = 0, mounted = True \<rparr>"

text \<open>\<open>setInterval\<close> and \<open>clearInterval\<close>.\<close>

definition setInterval :: "nat \<Rightarrow> page \<Rightarrow> page" where
  "setInterval inc p =
     p\<lparr> intervals := (nextId p, inc) # intervals p, nextId := Suc (nextId p) \<rparr>"

text \<open>The handler stops at its \<open>await\<close>; the call waits under a fresh number.\<close>

definition await :: "continuation \<Rightarrow> page \<Rightarrow> page" where
  "await k p = p\<lparr> calls := calls p @ [(nextId p, k)], nextId := Suc (nextId p) \<rparr>"

definition clearInterval :: "nat \<Rightarrow> page \<Rightarrow> page" where
  "clearInterval t p = p\<lparr> intervals := filter (\<lambda>(i, inc). i \<noteq> t) (intervals p) \<rparr>"


text \<open>
  The handlers, each in two parts: what runs when the handler is called, up to its
  \<open>await\<close>, and what runs when the call has settled (the rest of \<open>try\<close>, or
  \<open>catch\<close>, then \<open>finally\<close>).
\<close>

definition analyzeJob :: "page \<Rightarrow> page \<times> effect list" where
  "analyzeJob p =
     (if jobUrl p = [] then (p, [ToastError (JStr ''Bitte geben Sie eine URL ein'')])
      else
        let p1 = p\<lparr> loading := True, progress := 0,
                     progressText := ''Analysiere Stellenausschreibung...'' \<rparr>;
            t = nextId p1;
            p2 = setInterval 10 p1
        in (await (AfterAnalyzeJob t) p2,
            [Request AnalyzeJob (Json (JObj [(''url'', JStr (jobUrl p))]))]))"

definition analyzeJob_settled :: "nat \<Rightarrow> jsval outcome \<Rightarrow> page \<Rightarrow> page \<times> effect list" where
  "analyzeJob_settled t r p =
     (case r of
        Resolved d \<Rightarrow>
          (let p1 = clearInterval t p;
               p2 = p1\<lparr> progress := 100, jobAnalysis := d \<rparr>;
               p3 = p2\<lparr> currentStep := 2 \<rparr>
           in (p3\<lparr> loading := False, progress := 0 \<rparr>,
               [ToastSuccess (JStr ''Stellenausschreibung analysiert!'')]))
      | Rejected e \<Rightarrow>
          (p\<lparr> loading := False, progress := 0 \<rparr>,
           [ToastError (or_else (error_detail (AxiosError e)) (JStr ''Fehler bei der Analyse''))]))"

definition handleFileUpload :: "jsfile list \<Rightarrow> page \<Rightarrow> page \<times> effect list" where
  "handleFileUpload files p =
     (case files of
        [] \<Rightarrow> (p, [])
      | f # rest \<Rightarrow>
          if \<not> endsWith (toLowerCase (name f)) ''.pdf''
          then (p, [ToastError (JStr ''Nur PDF-Dateien werden akzeptiert'')])
          else
            let p1 = p\<lparr> resumeFile := Some f, loading := True,
                         progressText := ''Analysiere Lebenslauf...'', progress := 0 \<rparr>;
                t = nextId p1;
                p2 = setInterval 10 p1
            in (await (AfterAnalyzeResume t) p2, [Request AnalyzeResume (FormData f)]))"

definition handleFileUpload_settled ::
  "nat \<Rightarrow> jsval outcome \<Rightarrow> page \<Rightarrow> page \<times> effect list" where
  "handleFileUpload_settled t r p =
     (case r of
        Resolved d \<Rightarrow>
          (let p1 = clearInterval t p;
               p2 = p1\<lparr> progress := 100, resumeData := d \<rparr>
           in (p2\<lparr> loading := False, progress := 0 \<rparr>,
               [ToastSuccess (JStr ''Lebenslauf analysiert!'')]))
      | Rejected e \<Rightarrow>
          (let p1 = p\<lparr> resumeFile := None \<rparr>
           in (p1\<lparr> loading := False, progress := 0 \<rparr>,
               [ToastError (or_else (error_detail (AxiosError e))
                                    (JStr ''Fehler bei der PDF-Analyse''))])))"

definition generateCoverLetter :: "page \<Rightarrow> page \<times> effect list" where
  "generateCoverLetter p =
     (let p1 = p\<lparr> loading := True, currentStep := 3, progress := 0,
                  progressText := ''Erstelle Bewerbungsanschreiben...'' \<rparr>;
          t = nextId p1;
          p2 = setInterval 5 p1
      in (await (AfterGenerate t) p2,
          [Request GenerateCoverLetter
             (Json (JObj [(''job_analysis'', jobAnalysis p),
                          (''resume_data'', resumeData p)]))]))"

text \<open>
  \<open>response.data.cover_letter\<close> throws when the response has no data; the
  \<open>catch\<close> then handles the TypeError as it handles a failed call.
\<close>

definition generateCoverLetter_failed :: "thrown \<Rightarrow> page \<Rightarrow> page \<times> effect list" where
  "generateCoverLetter_failed e p =
     (let p1 = p\<lparr> currentStep := 2 \<rparr>
      in (p1\<lparr> loading := False, progress := 0 \<rparr>,
          [ToastError (or_else (error_detail e) (JStr ''Fehler bei der Generierung''))]))"

definition generateCoverLetter_settled ::
  "nat \<Rightarrow> jsval outcome \<Rightarrow> page \<Rightarrow> page \<times> effect list" where
  "generateCoverLetter_settled t r p =
     (case r of
        Resolved d \<Rightarrow>
          (let p1 = clearInterval t p;
               p2 = p1\<lparr> progress := 100 \<rparr>
           in case get_member d ''cover_letter'' of
                Inl e \<Rightarrow> generateCoverLetter_failed e p2
              | Inr c \<Rightarrow>
                  (let p3 = p2\<lparr> coverLetter := c \<rparr>;
                       p4 = p3\<lparr> currentStep := 4 \<rparr>
                   in (p4\<lparr> loading := False, progress := 0 \<rparr>,
                       [ToastSuccess (JStr ''Anschreiben erstellt!'')])))
      | Rejected e \<Rightarrow> generateCoverLetter_failed (AxiosError e) p)"

text \<open>
  The object that both \<open>downloadPdf\<close> and \<open>saveApplication\<close> post, as the handler
  builds it (before axios serialises it).
\<close>

definition export_body :: "page \<Rightarrow> jsval" where
  "export_body p =
     JObj [(''job_url'', JStr (jobUrl p)),
           (''job_analysis'', jobAnalysis p),
           (''resume_data'', resumeData p),
           (''cover_letter'', coverLetter p),
           (''company_name'', opt_chain (jobAnalysis p) ''company_name''),
           (''job_title'', opt_chain (jobAnalysis p) ''job_title'')]"

definition downloadPdf :: "page \<Rightarrow> page \<times> effect list" where
  "downloadPdf p =
     (let p1 = p\<lparr> loading := True, progressText := ''Erstelle PDF...'' \<rparr>
      in (await (AfterDownload (jobAnalysis p)) p1,
          [Request GeneratePdf (Json (export_body p))]))"

definition downloadPdf_settled :: "jsval \<Rightarrow> jsval outcome \<Rightarrow> page \<Rightarrow> page \<times> effect list" where
  "downloadPdf_settled ja r p =
     (case r of
        Resolved d \<Rightarrow>
          (p\<lparr> loading := False \<rparr>,
           [SaveAs (or_else (opt_chain ja ''company_name'') (JStr ''Dokument'')) d,
            ToastSuccess (JStr ''PDF heruntergeladen!'')])
      | Rejected e \<Rightarrow>
          (p\<lparr> loading := False \<rparr>, [ToastError (JStr ''Fehler beim PDF-Download'')]))"

definition saveApplication :: "page \<Rightarrow> page \<times> effect list" where
  "saveApplication p =
     (let p1 = p\<lparr> loading := True \<rparr>
      in (await AfterSave p1, [Request ApplicationsPost (Json (export_body p))]))"

text \<open>
  \<open>navigate('/dashboard')\<close> takes the page off the screen. React drops the state
  updates of a component that is gone; here they are still applied, where no
  control is rendered from them any more.
\<close>

definition saveApplication_settled :: "jsval outcome \<Rightarrow> page \<Rightarrow> page \<times> effect list" where
  "saveApplication_settled r p =
     (case r of
        Resolved d \<Rightarrow>
          (p\<lparr> mounted := False, loading := False \<rparr>,
           [ToastSuccess (JStr ''Bewerbung gespeichert!''), Navigate ''/dashboard''])
      | Rejected e \<Rightarrow>
          (p\<lparr> loading := False \<rparr>, [ToastError (JStr ''Fehler beim Speichern'')]))"


subsection \<open>What the user and the network can do\<close>

datatype event =
    ChangeUrl string
  | ClickAnalyze
  | UploadFiles "jsfile list"
  | ClickBack
  | ClickGenerate
  | ClickEdit
  | ClickSave
  | ClickDownload
  | ClickLogo
  | ClickDashboard
  | ClickLogout
  | Settle nat "jsval outcome"
  | Tick nat

text \<open>The \<open>disabled\<close> attributes of the buttons, as \<open>renderStepContent\<close> sets them.\<close>

definition analyze_disabled :: "page \<Rightarrow> bool" where
  "analyze_disabled p = (loading p \<or> jobUrl p = [])"

definition generate_disabled :: "page \<Rightarrow> bool" where
  "generate_disabled p = (loading p \<or> \<not> truthy (resumeData p))"

definition save_disabled :: "page \<Rightarrow> bool" where
  "save_disabled p = loading p"

definition download_disabled :: "page \<Rightarrow> bool" where
  "download_disabled p = loading p"

text \<open>
  An event can happen when its control is rendered in the current step and is not
  disabled, when the call it settles is waiting, or when its timer is running.
\<close>

fun enabled :: "page \<Rightarrow> event \<Rightarrow> bool" where
  "enabled p (ChangeUrl u) = (mounted p \<and> currentStep p = 1)"
| "enabled p ClickAnalyze = (mounted p \<and> currentStep p = 1 \<and> \<not> analyze_disabled p)"
| "enabled p (UploadFiles fs) = (mounted p \<and> currentStep p = 2)"
| "enabled p ClickBack = (mounted p \<and> currentStep p = 2)"
| "enabled p ClickGenerate = (mounted p \<and> currentStep p = 2 \<and> \<not> generate_disabled p)"
| "enabled p ClickEdit = (mounted p \<and> currentStep p = 4)"
| "enabled p ClickSave = (mounted p \<and> currentStep p = 4 \<and> \<not> save_disabled p)"
| "enabled p ClickDownload = (mounted p \<and> currentStep p = 4 \<and> \<not> download_disabled p)"
| "enabled p ClickLogo = mounted p"
| "enabled p ClickDashboard = mounted p"
| "enabled p ClickLogout = mounted p"
| "enabled p (Settle i r) = (map_of (calls p) i \<noteq> None)"
| "enabled p (Tick t) = (map_of (intervals p) t \<noteq> None)"

fun settle :: "continuation \<Rightarrow> jsval outcome \<Rightarrow> page \<Rightarrow> page \<times> effect list" where
  "settle (AfterAnalyzeJob t) r p = analyzeJob_settled t r p"
| "settle (AfterAnalyzeResume t) r p = handleFileUpload_settled t r p"
| "settle (AfterGenerate t) r p = generateCoverLetter_settled t r p"
| "settle (AfterDownload ja) r p = downloadPdf_settled ja r p"
| "settle AfterSave r p = saveApplication_settled r p"

definition forget :: "nat \<Rightarrow> page \<Rightarrow> page" where
  "forget i p = p\<lparr> calls := filter (\<lambda>(j, k). j \<noteq> i) (calls p) \<rparr>"

fun handle :: "event \<Rightarrow> page \<Rightarrow> page \<times> effect list" where
  "handle (ChangeUrl u) p = (p\<lparr> jobUrl := u \<rparr>, [])"
| "handle ClickAnalyze p = analyzeJob p"
| "handle (UploadFiles fs) p = handleFileUpload fs p"
| "handle ClickBack p = (p\<lparr> currentStep := 1 \<rparr>, [])"
| "handle ClickGenerate p = generateCoverLetter p"
| "handle ClickEdit p = (p\<lparr> currentStep := 2 \<rparr>, [])"
| "handle ClickSave p = saveApplication p"
| "handle ClickDownload p = downloadPdf p"
| "handle ClickLogo p = (p\<lparr> mounted := False \<rparr>, [Navigate ''/''])"
| "handle ClickDashboard p = (p\<lparr> mounted := False \<rparr>, [Navigate ''/dashboard''])"
| "handle ClickLogout p = (p, [CallLogout])"
| "handle (Settle i r) p =
     (case map_of (calls p) i of
        None \<Rightarrow> (p, [])
      | Some k \<Rightarrow> settle k r (forget i p))"
| "handle (Tick t) p =
     (case map_of (intervals p) t of
        None \<Rightarrow> (p, [])
      | Some inc \<Rightarrow> (p\<lparr> progress := min (progress p + inc) 90 \<rparr>, []))"

definition step :: "page \<Rightarrow> event \<Rightarrow> page \<times> effect list" where
  "step p e = (if enabled p e then handle e p else (p, []))"

text \<open>
  A run of the page from its first render, with its log: every effect, and every
  answer of the backend with the endpoint it came from.
\<close>

fun endpoint_of :: "continuation \<Rightarrow> endpoint" where
  "endpoint_of (AfterAnalyzeJob t) = AnalyzeJob"
| "endpoint_of (AfterAnalyzeResume t) = AnalyzeResume"
| "endpoint_of (AfterGenerate t) = GenerateCoverLetter"
| "endpoint_of (AfterDownload ja) = GeneratePdf"
| "endpoint_of AfterSave = ApplicationsPost"

datatype entry = Did effect | Answer endpoint "jsval outcome"

fun answered :: "page \<Rightarrow> event \<Rightarrow> entry list" where
  "answered p (Settle i r) =
     (case map_of (calls p) i of None \<Rightarrow> [] | Some k \<Rightarrow> [Answer (endpoint_of k) r])"
| "answered p e = []"

definition exec :: "page \<times> entry list \<Rightarrow> event \<Rightarrow> page \<times> entry list" where
  "exec c e =
     (case c of (p, tr) \<Rightarrow>
        (case step p e of (p', effs) \<Rightarrow> (p', tr @ answered p e @ map Did effs)))"

definition run :: "event list \<Rightarrow> page \<times> entry list" where
  "run evs = foldl exec (initial, []) evs"

section \<open>The dashboard\<close>

text \<open>
  An application record as the backend lists it. Identifiers are strings or
  numbers, on which \<open>!==\<close> compares values.
\<close>

record application =
  app_id :: jsval
  job_url :: jsval
  job_analysis :: jsval
  resume_data :: jsval
  cover_letter :: jsval
  company_name :: jsval
  job_title :: jsval
  created_at :: jsval

record dashboard =
  applications :: "application list"
  loading_d :: bool
  deleteId :: jsval
  selectedApp :: "application option"

definition initial_d :: dashboard where
  "initial_d = \<lparr> applications = [], loading_d = True, deleteId = JNull, selectedApp = None \<rparr>"

definition fetchApplications :: "dashboard \<Rightarrow> dashboard \<times> effect list" where
  "fetchApplications s = (s, [Request ApplicationsGet NoBody])"

definition fetchApplications_settled ::
  "application list outcome \<Rightarrow> dashboard \<Rightarrow> dashboard \<times> effect list" where
  "fetchApplications_settled r s =
     (case r of
        Resolved apps \<Rightarrow> (s\<lparr> applications := apps, loading_d := False \<rparr>, [])
      | Rejected e \<Rightarrow>
          (s\<lparr> loading_d := False \<rparr>, [ToastError (JStr ''Fehler beim Laden der Bewerbungen'')]))"

text \<open>
  \<open>deleteApplication\<close> reads \<open>applications\<close> and \<open>deleteId\<close> of the render it was
  called in, also after the call: the waiting handler holds both.
\<close>

datatype deletion = Deletion "application list" jsval

definition deleteApplication :: "dashboard \<Rightarrow> dashboard \<times> effect list \<times> deletion option" where
  "deleteApplication s =
     (if \<not> truthy (deleteId s) then (s, [], None)
      else (s, [Request (ApplicationsDelete (deleteId s)) NoBody],
            Some (Deletion (applications s) (deleteId s))))"

definition deleteApplication_settled ::
  "deletion \<Rightarrow> jsval outcome \<Rightarrow> dashboard \<Rightarrow> dashboard \<times> effect list" where
  "deleteApplication_settled k r s =
     (case k of Deletion apps did \<Rightarrow>
        (case r of
           Resolved d \<Rightarrow>
             (let s1 = s\<lparr> applications := filter (\<lambda>app. app_id app \<noteq> did) apps \<rparr>
              in (s1\<lparr> deleteId := JNull \<rparr>, [ToastSuccess (JStr msg_geloescht)]))
         | Rejected e \<Rightarrow>
             (s\<lparr> deleteId := JNull \<rparr>, [ToastError (JStr msg_loeschen)])))"

text \<open>A confirmed deletion whose call settles before anything else happens.\<close>

definition delete_confirmed :: "jsval outcome \<Rightarrow> dashboard \<Rightarrow> dashboard \<times> effect list" where
  "delete_confirmed r s =
     (case deleteApplication s of
        (s1, effs, None) \<Rightarrow> (s1, effs)
      | (s1, effs, Some k) \<Rightarrow>
          (case deleteApplication_settled k r s1 of (s2, effs2) \<Rightarrow> (s2, effs @ effs2)))"

text \<open>
  The dashboard between its clicks, with the deletions that wait for their call. The
  delete button of a card (rendered once the list is loaded, and covered by the open
  dialog) calls \<open>setDeleteId(app.id)\<close>; the confirm button of the dialog, rendered
  with \<open>open={!!deleteId}\<close>, calls \<open>deleteApplication\<close>; the dialog's
  \<open>onOpenChange\<close> calls \<open>setDeleteId(null)\<close>; and the \<open>n\<close>-th waiting deletion
  settles.
\<close>

datatype click =
    PressDelete application
  | ConfirmDelete
  | OpenChange
  | DeleteSettles nat "jsval outcome"

fun act :: "click \<Rightarrow> dashboard \<times> deletion list \<Rightarrow> (dashboard \<times> deletion list) \<times> effect list" where
  "act (PressDelete app) (s, ws) =
     (if \<not> loading_d s \<and> app \<in> set (applications s) \<and> \<not> truthy (deleteId s)
      then ((s\<lparr> deleteId := app_id app \<rparr>, ws), [])
      else ((s, ws), []))"
| "act ConfirmDelete (s, ws) =
     (if truthy (deleteId s)
      then (case deleteApplication s of
              (s1, effs, None) \<Rightarrow> ((s1, ws), effs)
            | (s1, effs, Some k) \<Rightarrow> ((s1, ws @ [k]), effs))
      else ((s, ws), []))"
| "act OpenChange (s, ws) = ((s\<lparr> deleteId := JNull \<rparr>, ws), [])"
| "act (DeleteSettles n r) (s, ws) =
     (if n < length ws
      then (case deleteApplication_settled (ws ! n) r s of
              (s1, effs) \<Rightarrow> ((s1, take n ws @ drop (Suc n) ws), effs))
      else ((s, ws), []))"

text \<open>A sequence of them, with the effects in order.\<close>

fun acts :: "click list \<Rightarrow> dashboard \<times> deletion list \<Rightarrow> (dashboard \<times> deletion list) \<times> effect list" where
  "acts [] c = (c, [])"
| "acts (a # as) c =
     (case act a c of (c1, effs) \<Rightarrow> (case acts as c1 of (c2, effs2) \<Rightarrow> (c2, effs @ effs2)))"

text \<open>The dashboard's own \<open>downloadPdf\<close>, called with a listed application.\<close>

definition downloadPdf_d :: "application \<Rightarrow> effect list" where
  "downloadPdf_d app =
     [Request GeneratePdf
        (Json (JObj [(''job_url'', job_url app),
                     (''job_analysis'', JObj []),
                     (''resume_data'', JObj []),
                     (''cover_letter'', cover_letter app),
                     (''company_name'', company_name app),
                     (''job_title'', job_title app)]))]"

definition downloadPdf_d_settled :: "application \<Rightarrow> jsval outcome \<Rightarrow> effect list" where
  "downloadPdf_d_settled app r =
     (case r of
        Resolved d \<Rightarrow>
          [SaveAs (or_else (company_name app) (JStr ''Dokument'')) d,
           ToastSuccess (JStr ''PDF heruntergeladen!'')]
      | Rejected e \<Rightarrow> [ToastError (JStr ''Fehler beim PDF-Download'')])"


section \<open>The login and registration modal\<close>

text \<open>
  The modal's state: the mode (\<open>login\<close>, or anything else for registration), the
  loading flag and the three fields of \<open>formData\<close>.
\<close>

record authModal =
  mode :: string
  loading_m :: bool
  name_m :: string
  email :: string
  password :: string

definition handleSubmit :: "authModal \<Rightarrow> authModal \<times> effect list" where
  "handleSubmit m =
     (m\<lparr> loading_m := True \<rparr>,
      [if mode m = ''login'' then CallLogin (email m) (password m)
       else CallRegister (email m) (password m) (name_m m)])"

text \<open>What runs when the call has settled; \<open>md\<close> is the mode of the render that submitted.\<close>

definition handleSubmit_settled ::
  "string \<Rightarrow> jsval outcome \<Rightarrow> authModal \<Rightarrow> authModal \<times> effect list" where
  "handleSubmit_settled md r m =
     (case r of
        Resolved d \<Rightarrow>
          (m\<lparr> loading_m := False \<rparr>,
           [ToastSuccess (JStr (if md = ''login'' then ''Erfolgreich angemeldet!''
                                else ''Konto erfolgreich erstellt!'')),
            CloseModal, Navigate ''/generator''])
      | Rejected e \<Rightarrow>
          (m\<lparr> loading_m := False \<rparr>,
           [ToastError (or_else (error_detail (AxiosError e))
                                (JStr ''Ein Fehler ist aufgetreten''))]))"

section \<open>Notions of the specification\<close>

text \<open>
  A file name that ends in \<open>.pdf\<close>, in any mix of upper and lower case: its last
  four characters, read one by one.
\<close>

definition is_pdf_name :: "string \<Rightarrow> bool" where
  "is_pdf_name n =
     (case rev n of
        c # b # a # d # stem \<Rightarrow>
          d = CHR ''.'' \<and> (a = CHR ''p'' \<or> a = CHR ''P'') \<and> (b = CHR ''d'' \<or> b = CHR ''D'')
          \<and> (c = CHR ''f'' \<or> c = CHR ''F'')
      | _ \<Rightarrow> False)"

text \<open>The confirmation dialog is rendered with \<open>open={!!deleteId}\<close>.\<close>

definition dialog_open :: "dashboard \<Rightarrow> bool" where
  "dialog_open s = truthy (deleteId s)"

text \<open>
  A list that has lost exactly one record, one with the given identifier, and is
  otherwise as before.
\<close>

definition loses_exactly_one :: "application list \<Rightarrow> jsval \<Rightarrow> application list \<Rightarrow> bool" where
  "loses_exactly_one before did after =
     (\<exists>i<length before. app_id (before ! i) = did \<and> after = take i before @ drop (Suc i) before)"

text \<open>
  The message of a failed call as the specification has it: the one the response body
  carries (its \<open>detail\<close>) when there is one, else the generic message of the call.
\<close>

definition failure_message :: "jsval option \<Rightarrow> string \<Rightarrow> jsval" where
  "failure_message e generic =
     (case e of
        None \<Rightarrow> JStr generic
      | Some b \<Rightarrow> (if truthy (opt_chain b ''detail'') then opt_chain b ''detail'' else JStr generic))"

text \<open>A field of the object a request posts.\<close>

fun body_field :: "string \<Rightarrow> effect \<Rightarrow> jsval" where
  "body_field k (Request ep (Json b)) = get_prop b k"
| "body_field k e = JUndefined"

text \<open>The five cells the source groups as form state.\<close>

definition form_data :: "page \<Rightarrow> string \<times> jsval \<times> jsfile option \<times> jsval \<times> jsval" where
  "form_data p = (jobUrl p, jobAnalysis p, resumeFile p, resumeData p, coverLetter p)"

section \<open>Sample sessions\<close>

definition sample_job :: jsval where
  "sample_job = JObj [(''company_name'', JStr ''ACME''), (''job_title'', JStr ''Dev'')]"

definition sample_resume :: jsval where
  "sample_resume = JObj [(''full_name'', JStr ''A. B.'')]"

definition sample_cv :: jsfile where
  "sample_cv = \<lparr> name = ''cv.PDF'', content = ''%PDF'' \<rparr>"

definition sample_cv2 :: jsfile where
  "sample_cv2 = \<lparr> name = ''lebenslauf.pdf'', content = ''%PDF-1.7'' \<rparr>"

definition sample_letter :: jsval where
  "sample_letter = JObj [(''cover_letter'', JStr ''Sehr geehrte Damen und Herren'')]"

text \<open>The page while the job analysis is awaited (as call 1, with timer 0).\<close>

definition to_analysis :: "event list" where
  "to_analysis = [ChangeUrl ''https://x.de/job'', ClickAnalyze]"

text \<open>The page in the upload step, the job analysed.\<close>

definition to_upload :: "event list" where
  "to_upload = to_analysis @ [Settle 1 (Resolved sample_job)]"

text \<open>The page while the cover letter is awaited (as call 5, with timer 4).\<close>

definition to_generate :: "event list" where
  "to_generate =
     to_upload @ [UploadFiles [sample_cv], Settle 3 (Resolved sample_resume), ClickGenerate]"

text \<open>The log of \<open>to_generate\<close> before its last entry.\<close>

definition log_before_generate :: "entry list" where
  "log_before_generate =
     [Did (Request AnalyzeJob (Json (JObj [(''url'', JStr ''https://x.de/job'')]))),
      Answer AnalyzeJob (Resolved sample_job),
      Did (ToastSuccess (JStr ''Stellenausschreibung analysiert!'')),
      Did (Request AnalyzeResume (FormData sample_cv)),
      Answer AnalyzeResume (Resolved sample_resume),
      Did (ToastSuccess (JStr ''Lebenslauf analysiert!''))]"

text \<open>The page in the last step.\<close>

definition to_export :: "event list" where
  "to_export = to_generate @ [Settle 5 (Resolved sample_letter)]"

text \<open>The page in the last step while the save call is awaited (as call 6).\<close>

definition to_saving :: "event list" where
  "to_saving = to_export @ [ClickSave]"

text \<open>
  Two uploads, the second started while the first is awaited (calls 3 and 5); the first
  is answered.
\<close>

definition overlapping :: "event list" where
  "overlapping =
     to_upload @ [UploadFiles [sample_cv], UploadFiles [sample_cv2],
                  Settle 3 (Resolved sample_resume)]"

text \<open>The page with a URL entered and nothing started.\<close>

definition url_entered :: "event list" where
  "url_entered = [ChangeUrl ''https://x.de/job'']"

text \<open>
  The page back in step 1 after two overlapping uploads (calls 3 and 5), a first
  analysis started between their answers (call 7), and so with the loading flag clear
  while that analysis is outstanding.
\<close>

definition second_analysis :: "event list" where
  "second_analysis =
     to_upload @ [UploadFiles [sample_cv], UploadFiles [sample_cv2], ClickBack,
                  Settle 3 (Resolved sample_resume), ClickAnalyze,
                  Settle 5 (Resolved sample_resume)]"

text \<open>
  From there a second analysis is started (call 9); the first is answered, the cover
  letter generated (call 11), and the page is in the last step with the second
  analysis still outstanding.
\<close>

definition late_answer :: "event list" where
  "late_answer =
     second_analysis @ [ClickAnalyze, Settle 7 (Resolved sample_job), ClickGenerate,
                        Settle 11 (Resolved sample_letter)]"

text \<open>A rejection whose response body carries a message.\<close>

definition not_found :: "jsval option" where
  "not_found = Some (JObj [(''detail'', JStr ''Application not found'')])"

text \<open>Sample dashboards.\<close>

definition app1 :: application where
  "app1 = \<lparr> app_id = JStr ''a1'', job_url = JStr ''https://x.de/1'', job_analysis = sample_job,
     resume_data = sample_resume, cover_letter = JStr ''Eins'', company_name = JStr ''ACME'',
     job_title = JStr ''Dev'', created_at = JStr ''2024-01-01T00:00:00'' \<rparr>"

definition app2 :: application where
  "app2 = \<lparr> app_id = JStr ''a2'', job_url = JStr ''https://x.de/2'', job_analysis = sample_job,
     resume_data = sample_resume, cover_letter = JStr ''Zwei'', company_name = JStr ''Beta'',
     job_title = JStr ''Ops'', created_at = JStr ''2024-01-02T00:00:00'' \<rparr>"

definition app3 :: application where
  "app3 = app2\<lparr> app_id := JStr ''a3'', cover_letter := JStr ''Drei'' \<rparr>"

definition listing :: dashboard where
  "listing = \<lparr> applications = [app1, app2], loading_d = False, deleteId = JStr ''a2'', selectedApp = None \<rparr>"

text \<open>The dashboard once the backend has listed three records.\<close>

definition listed :: dashboard where
  "listed = fst (fetchApplications_settled (Resolved [app1, app2, app3]) initial_d)"

text \<open>
  Two deletions that overlap: the first record's deletion is confirmed, then the
  second's while the first call is outstanding; then the first call succeeds.
\<close>

definition first_deleted :: "click list" where
  "first_deleted =
     [PressDelete app1, ConfirmDelete, OpenChange,
      PressDelete app2, ConfirmDelete, OpenChange,
      DeleteSettles 0 (Resolved JNull)]"

text \<open>The list the dashboard displays after a sequence of clicks from there.\<close>

definition displayed :: "click list \<Rightarrow> application list" where
  "displayed cs = applications (fst (fst (acts cs (listed, []))))"

section \<open>What holds in every run\<close>

text \<open>
  The stored job analysis is the data of an answer of the analyze-job call, unless the
  page has never left step 1 and waits for job analyses only; the stored resume data
  is the data of an answer of the analyze-resume call, unless it is still \<open>null\<close>,
  the page is in step 1 or 2 and waits for no generation, download or save. The
  loading flag is set only while some call waits.
\<close>

definition only_job_calls :: "page \<Rightarrow> bool" where
  "only_job_calls p = (\<forall>k \<in> snd ` set (calls p). endpoint_of k = AnalyzeJob)"

definition no_letter_calls :: "page \<Rightarrow> bool" where
  "no_letter_calls p =
     (\<forall>k \<in> snd ` set (calls p). endpoint_of k = AnalyzeJob \<or> endpoint_of k = AnalyzeResume)"

definition job_known :: "page \<Rightarrow> entry list \<Rightarrow> bool" where
  "job_known p tr =
     (Answer AnalyzeJob (Resolved (jobAnalysis p)) \<in> set tr
      \<or> currentStep p = 1 \<and> only_job_calls p)"

definition resume_known :: "page \<Rightarrow> entry list \<Rightarrow> bool" where
  "resume_known p tr =
     (Answer AnalyzeResume (Resolved (resumeData p)) \<in> set tr
      \<or> resumeData p = JNull \<and> (currentStep p = 1 \<or> currentStep p = 2) \<and> no_letter_calls p)"

definition page_inv :: "page \<Rightarrow> entry list \<Rightarrow> bool" where
  "page_inv p tr = (job_known p tr \<and> resume_known p tr \<and> (loading p \<longrightarrow> calls p \<noteq> []))"

text \<open>
  A request that carries a job analysis and resume data is sourced in the log before it
  when both are the data of answers logged there (and for the generation, when the
  resume data is truthy).
\<close>

fun sourced :: "entry list \<Rightarrow> entry \<Rightarrow> bool" where
  "sourced pre (Did (Request ep (Json b))) =
     ((ep = GenerateCoverLetter \<or> ep = GeneratePdf \<or> ep = ApplicationsPost \<longrightarrow>
         Answer AnalyzeJob (Resolved (get_prop b ''job_analysis'')) \<in> set pre
         \<and> Answer AnalyzeResume (Resolved (get_prop b ''resume_data'')) \<in> set pre)
      \<and> (ep = GenerateCoverLetter \<longrightarrow> truthy (get_prop b ''resume_data'')))"
| "sourced pre (Did (Request ep b)) =
     (ep \<noteq> GenerateCoverLetter \<and> ep \<noteq> GeneratePdf \<and> ep \<noteq> ApplicationsPost)"
| "sourced pre x = True"

text \<open>
  The page in step 1 with one call outstanding, a job analysis, and the loading flag
  set; and a sequence of steps.
\<close>

definition awaiting_job :: "nat \<Rightarrow> page \<Rightarrow> bool" where
  "awaiting_job i p =
     (currentStep p = 1 \<and> loading p \<and> (\<exists>t. calls p = [(i, AfterAnalyzeJob t)]))"

fun steps :: "page \<Rightarrow> event list \<Rightarrow> page" where
  "steps p [] = p"
| "steps p (e # es) = steps (fst (step p e)) es"

section \<open>Properties of the generator page\<close>

subsection \<open>The test of the file name\<close>

lemma lower_char_p: "lower_char c = CHR ''p'' \<longleftrightarrow> c = CHR ''p'' \<or> c = CHR ''P''"
  by (auto simp: lower_char_def)

lemma lower_char_d: "lower_char c = CHR ''d'' \<longleftrightarrow> c = CHR ''d'' \<or> c = CHR ''D''"
  by (auto simp: lower_char_def)

lemma lower_char_f: "lower_char c = CHR ''f'' \<longleftrightarrow> c = CHR ''f'' \<or> c = CHR ''F''"
  by (auto simp: lower_char_def)

lemma lower_char_dot: "lower_char c = CHR ''.'' \<longleftrightarrow> c = CHR ''.''"
  by (auto simp: lower_char_def)

lemma endsWith_pdf: "endsWith (toLowerCase n) ''.pdf'' = is_pdf_name n"
proof -
  have "rev (toLowerCase n) = map lower_char (rev n)"
    by (simp add: toLowerCase_def rev_map)
  then show ?thesis
    by (auto simp: endsWith_def is_pdf_name_def lower_char_p lower_char_d lower_char_f
        lower_char_dot split: list.splits)
qed

subsection \<open>Submitting the job URL\<close>

text \<open>
  C7. When \<open>analyzeJob\<close> is called while the stored URL is empty, it issues no
  network call, leaves the whole page state as it is (so the step stays where it was,
  and no form datum changes), and shows the validation message.
\<close>

theorem empty_url_submit:
  assumes "jobUrl p = []"
  shows "analyzeJob p = (p, [ToastError (JStr ''Bitte geben Sie eine URL ein'')])
       \<and> filter is_request (snd (analyzeJob p)) = []
       \<and> currentStep (fst (analyzeJob p)) = currentStep p"
  using assms by (simp add: analyzeJob_def)

theorem empty_url_submit_witness:
  "jobUrl initial = [] \<and> currentStep initial = 1
   \<and> analyzeJob initial = (initial, [ToastError (JStr ''Bitte geben Sie eine URL ein'')])
   \<and> filter is_request (snd (analyzeJob initial)) = []"
  using empty_url_submit [of initial] by (simp add: initial_def)

subsection \<open>Uploading a file\<close>

text \<open>
  C8. A file whose name does not end in \<open>.pdf\<close> (in any case) is rejected by
  \<open>handleFileUpload\<close>: no network call, the page state unchanged (no file and no
  resume data stored), and an error message.
\<close>

theorem non_pdf_rejected:
  assumes "\<not> is_pdf_name (name f)"
  shows "handleFileUpload (f # rest) p
           = (p, [ToastError (JStr ''Nur PDF-Dateien werden akzeptiert'')])
       \<and> filter is_request (snd (handleFileUpload (f # rest) p)) = []
       \<and> resumeFile (fst (handleFileUpload (f # rest) p)) = resumeFile p
       \<and> resumeData (fst (handleFileUpload (f # rest) p)) = resumeData p"
  using assms by (simp add: handleFileUpload_def endsWith_pdf)

theorem non_pdf_rejected_witness:
  "\<not> is_pdf_name ''cv.pdf.docx''
   \<and> handleFileUpload [\<lparr>name = ''cv.pdf.docx'', content = ''abc''\<rparr>] initial
       = (initial, [ToastError (JStr ''Nur PDF-Dateien werden akzeptiert'')])"
  using non_pdf_rejected [of "\<lparr>name = ''cv.pdf.docx'', content = ''abc''\<rparr>" "[]" initial]
  by (simp add: is_pdf_name_def)

subsection \<open>The answers of the backend\<close>

lemmas settled_defs = analyzeJob_settled_def handleFileUpload_settled_def
  generateCoverLetter_settled_def generateCoverLetter_failed_def downloadPdf_settled_def
  saveApplication_settled_def clearInterval_def forget_def

text \<open>
  C5. When the generation call fails, the page is put back to step 2, and the stored
  job analysis and resume data are what they were; starting the generation did not
  change them either.
\<close>

theorem failed_generation_returns_to_upload:
  assumes "map_of (calls p) i = Some (AfterGenerate t)"
    and "step p (Settle i (Rejected e)) = (p', effs)"
  shows "currentStep p' = 2 \<and> jobAnalysis p' = jobAnalysis p \<and> resumeData p' = resumeData p
       \<and> jobAnalysis (fst (generateCoverLetter q)) = jobAnalysis q
       \<and> resumeData (fst (generateCoverLetter q)) = resumeData q"
  using assms
  by (auto simp: step_def settled_defs generateCoverLetter_def Let_def setInterval_def await_def)

theorem failed_generation_returns_to_upload_witness:
  "map_of (calls (fst (run to_generate))) 5 = Some (AfterGenerate 4)
   \<and> currentStep (fst (run to_generate)) = 3
   \<and> currentStep (fst (step (fst (run to_generate)) (Settle 5 (Rejected None)))) = 2
   \<and> jobAnalysis (fst (step (fst (run to_generate)) (Settle 5 (Rejected None)))) = sample_job
   \<and> resumeData (fst (step (fst (run to_generate)) (Settle 5 (Rejected None)))) = sample_resume"
proof -
  have c: "map_of (calls (fst (run to_generate))) 5 = Some (AfterGenerate 4)"
    by code_simp
  have s: "currentStep (fst (run to_generate)) = 3"
    and j: "jobAnalysis (fst (run to_generate)) = sample_job"
    and r: "resumeData (fst (run to_generate)) = sample_resume"
    by code_simp+
  show ?thesis
    using c s j r failed_generation_returns_to_upload [OF c surjective_pairing] by simp
qed

section \<open>Properties of the dashboard\<close>

lemmas delete_defs = delete_confirmed_def deleteApplication_def deleteApplication_settled_def

text \<open>
  C10. When the delete call of a confirmed deletion fails, the displayed list is what it
  was, the one error message is shown after the one request, and the pending
  identifier is cleared, which closes the dialog.
\<close>

theorem failed_delete_keeps_list:
  assumes "dialog_open s"
    and "delete_confirmed (Rejected e) s = (s', effs)"
  shows "applications s' = applications s
       \<and> effs = [Request (ApplicationsDelete (deleteId s)) NoBody, ToastError (JStr msg_loeschen)]
       \<and> deleteId s' = JNull \<and> \<not> dialog_open s'"
  using assms by (auto simp: delete_defs dialog_open_def)

theorem failed_delete_keeps_list_witness:
  "dialog_open listing
   \<and> applications (fst (delete_confirmed (Rejected None) listing)) = [app1, app2]
   \<and> \<not> dialog_open (fst (delete_confirmed (Rejected None) listing))"
proof -
  have d: "dialog_open listing" by (simp add: dialog_open_def listing_def)
  show ?thesis
    using d failed_delete_keeps_list [OF d surjective_pairing] by (simp add: listing_def)
qed

subsection \<open>A deletion that succeeds\<close>

lemma filter_distinct_nth:
  "distinct (map f xs) \<Longrightarrow> i < length xs \<Longrightarrow>
     filter (\<lambda>a. f a \<noteq> f (xs ! i)) xs = take i xs @ drop (Suc i) xs"
proof (induction xs arbitrary: i)
  case Nil
  then show ?case by simp
next
  case (Cons x xs)
  show ?case
  proof (cases i)
    case 0
    from Cons.prems(1) have "f x \<notin> f ` set xs"
      by simp
    then have "\<forall>a\<in>set xs. f a \<noteq> f x"
      by (metis imageI)
    then have "filter (\<lambda>a. f a \<noteq> f x) xs = xs"
      by simp
    with 0 show ?thesis by simp
  next
    case (Suc j)
    with Cons.prems have j: "j < length xs"
      by simp
    from Cons.prems(1) have "f x \<notin> f ` set xs"
      by simp
    moreover from j have "f (xs ! j) \<in> f ` set xs"
      by simp
    ultimately have "f (xs ! j) \<noteq> f x"
      by auto
    note j this
    with Suc Cons show ?thesis by simp
  qed
qed

lemma loses_exactly_one_length:
  "loses_exactly_one before did after \<Longrightarrow> Suc (length after) = length before"
  by (auto simp: loses_exactly_one_def)

text \<open>
  Whenever the call settles, the list that is filtered is the one of the render in
  which the deletion was confirmed.
\<close>

lemma deleteApplication_settled_captured:
  "applications (fst (deleteApplication_settled (Deletion apps did) (Resolved d) s))
     = filter (\<lambda>app. app_id app \<noteq> did) apps"
  by (simp add: deleteApplication_settled_def)

text \<open>
  A confirmed deletion whose call settles before anything else happens issues exactly
  one request, the delete call for the pending identifier. When it succeeds, the
  displayed list is the former one without the records that carry the pending
  identifier; that is exactly one record less, the others as they were and in their
  order, when the displayed identifiers are pairwise distinct and the pending one is
  among them.
\<close>

lemma delete_alone_removes_one:
  assumes "dialog_open s"
    and "delete_confirmed (Resolved d) s = (s', effs)"
  shows "filter is_request effs = [Request (ApplicationsDelete (deleteId s)) NoBody]
       \<and> applications s' = filter (\<lambda>app. app_id app \<noteq> deleteId s) (applications s)
       \<and> (distinct (map app_id (applications s)) \<and> deleteId s \<in> app_id ` set (applications s)
            \<longrightarrow> loses_exactly_one (applications s) (deleteId s) (applications s'))"
proof -
  from assms have a: "applications s' = filter (\<lambda>app. app_id app \<noteq> deleteId s) (applications s)"
    and r: "filter is_request effs = [Request (ApplicationsDelete (deleteId s)) NoBody]"
    by (auto simp: delete_defs dialog_open_def)
  have "loses_exactly_one (applications s) (deleteId s) (applications s')"
    if dist: "distinct (map app_id (applications s))"
      and mem: "deleteId s \<in> app_id ` set (applications s)"
  proof -
    from mem obtain i where i: "i < length (applications s)"
      and eq: "app_id (applications s ! i) = deleteId s"
      by (auto simp: in_set_conv_nth)
    from filter_distinct_nth [OF dist i] a eq
    have "applications s' = take i (applications s) @ drop (Suc i) (applications s)"
      by simp
    with i eq show ?thesis
      unfolding loses_exactly_one_def by blast
  qed
  with a r show ?thesis by blast
qed

text \<open>
  C4. Every confirmed deletion issues exactly one delete call, and a deletion that
  settles alone takes exactly the record with the pending identifier from the list.
  Not so when two deletions overlap: with three records of distinct identifiers
  listed, the first deletion succeeds and the list shows the other two; when the
  second succeeds, the handler filters the list of the render it was confirmed in, and
  the list shows the first record again, which the backend has deleted, instead of
  losing the second record only.
\<close>

theorem overlapping_deletions_restore_record:
  "distinct (map app_id (applications listed))
   \<and> filter is_request (snd (acts first_deleted (listed, [])))
        = [Request (ApplicationsDelete (JStr ''a1'')) NoBody,
           Request (ApplicationsDelete (JStr ''a2'')) NoBody]
   \<and> displayed first_deleted = [app2, app3]
   \<and> snd (fst (acts first_deleted (listed, []))) = [Deletion [app1, app2, app3] (JStr ''a2'')]
   \<and> displayed (first_deleted @ [DeleteSettles 0 (Resolved JNull)]) = [app1, app3]
   \<and> \<not> loses_exactly_one [app2, app3] (JStr ''a2'') [app1, app3]"
proof -
  have "\<not> loses_exactly_one [app2, app3] (JStr ''a2'') [app1, app3]"
    using loses_exactly_one_length [of "[app2, app3]" "JStr ''a2''" "[app1, app3]"] by auto
  moreover have "distinct (map app_id (applications listed))"
    "filter is_request (snd (acts first_deleted (listed, [])))
        = [Request (ApplicationsDelete (JStr ''a1'')) NoBody,
           Request (ApplicationsDelete (JStr ''a2'')) NoBody]"
    "displayed first_deleted = [app2, app3]"
    "snd (fst (acts first_deleted (listed, []))) = [Deletion [app1, app2, app3] (JStr ''a2'')]"
    "displayed (first_deleted @ [DeleteSettles 0 (Resolved JNull)]) = [app1, app3]"
    by code_simp+
  ultimately show ?thesis by blast
qed

section \<open>The messages of failed calls\<close>

text \<open>
  C3, as stated, fails: the delete call is rejected with a body that carries a message,
  and the dashboard shows its own fixed message.
\<close>

theorem delete_failure_message_counterexample:
  "failure_message not_found msg_loeschen = JStr ''Application not found''
   \<and> dialog_open listing
   \<and> filter is_toast (snd (delete_confirmed (Rejected not_found) listing))
        = [ToastError (JStr msg_loeschen)]
   \<and> JStr msg_loeschen \<noteq> JStr ''Application not found''"
  by (simp add: failure_message_def not_found_def opt_chain_def nullish_def dialog_open_def
      listing_def delete_defs msg_loeschen_def)

text \<open>
  C3, amended. Every failed call shows exactly one message. For the job analysis, the
  resume analysis, the generation, and the login or registration it is the
  \<open>detail\<close> of the response body
  when that is present and truthy, else the call's generic message; for the PDF
  download (on both pages), saving, the list fetch and the deletion it is always the
  call's fixed message, whatever the body carries.
\<close>

theorem failure_messages:
  "snd (analyzeJob_settled t (Rejected e) p) = [ToastError (failure_message e ''Fehler bei der Analyse'')]
   \<and> snd (handleFileUpload_settled t (Rejected e) p)
        = [ToastError (failure_message e ''Fehler bei der PDF-Analyse'')]
   \<and> snd (generateCoverLetter_settled t (Rejected e) p)
        = [ToastError (failure_message e ''Fehler bei der Generierung'')]
   \<and> snd (downloadPdf_settled ja (Rejected e) p) = [ToastError (JStr ''Fehler beim PDF-Download'')]
   \<and> snd (saveApplication_settled (Rejected e) p) = [ToastError (JStr ''Fehler beim Speichern'')]
   \<and> snd (fetchApplications_settled (Rejected e) s)
        = [ToastError (JStr ''Fehler beim Laden der Bewerbungen'')]
   \<and> snd (deleteApplication_settled k (Rejected e) s) = [ToastError (JStr msg_loeschen)]
   \<and> downloadPdf_d_settled app (Rejected e) = [ToastError (JStr ''Fehler beim PDF-Download'')]
   \<and> snd (handleSubmit_settled md (Rejected e) m)
        = [ToastError (failure_message e ''Ein Fehler ist aufgetreten'')]"
  by (cases e; cases k)
    (simp_all add: settled_defs failure_message_def or_else_def fetchApplications_settled_def
      deleteApplication_settled_def downloadPdf_d_settled_def handleSubmit_settled_def)

theorem failure_messages_witness:
  "snd (analyzeJob_settled 0 (Rejected not_found) (fst (run to_analysis)))
     = [ToastError (JStr ''Application not found'')]
   \<and> snd (analyzeJob_settled 0 (Rejected None) (fst (run to_analysis)))
     = [ToastError (JStr ''Fehler bei der Analyse'')]
   \<and> snd (saveApplication_settled (Rejected not_found) (fst (run to_export)))
     = [ToastError (JStr ''Fehler beim Speichern'')]"
  using failure_messages [of 0 not_found "fst (run to_analysis)"]
    failure_messages [of 0 None "fst (run to_analysis)"]
    failure_messages [of _ not_found "fst (run to_export)"]
  by (simp add: failure_message_def not_found_def opt_chain_def nullish_def)

section \<open>Runs of the generator page\<close>

lemmas handler_defs = analyzeJob_def handleFileUpload_def generateCoverLetter_def
  downloadPdf_def saveApplication_def setInterval_def await_def

lemmas button_defs = analyze_disabled_def generate_disabled_def save_disabled_def
  download_disabled_def

lemma map_of_calls_mem: "map_of (calls p) i = Some k \<Longrightarrow> k \<in> snd ` set (calls p)"
  by (force dest: map_of_SomeD)

lemma exec_eq: "exec (p, tr) e = (fst (step p e), tr @ answered p e @ map Did (snd (step p e)))"
  by (simp add: exec_def split: prod.splits)

lemma inv_click:
  assumes "page_inv p tr" and "\<forall>i r. e \<noteq> Settle i r"
  shows "page_inv (fst (step p e)) (tr @ answered p e @ map Did (snd (step p e)))"
  using assms
  by (cases e)
    (auto simp: page_inv_def job_known_def resume_known_def only_job_calls_def no_letter_calls_def
      step_def handler_defs button_defs Let_def split: list.splits option.splits)

lemmas inv_defs = page_inv_def job_known_def resume_known_def only_job_calls_def
  no_letter_calls_def

lemma later_call_known:
  assumes "page_inv p tr" and "k \<in> snd ` set (calls p)"
    and "endpoint_of k \<noteq> AnalyzeJob" and "endpoint_of k \<noteq> AnalyzeResume"
  shows "Answer AnalyzeJob (Resolved (jobAnalysis p)) \<in> set tr"
    and "Answer AnalyzeResume (Resolved (resumeData p)) \<in> set tr"
  using assms by (auto simp: inv_defs)

lemma inv_settle:
  assumes "page_inv p tr"
  shows "page_inv (fst (step p (Settle i r))) (tr @ answered p (Settle i r) @ map Did (snd (step p (Settle i r))))"
proof (cases "map_of (calls p) i")
  case None
  with assms show ?thesis by (simp add: step_def)
next
  case (Some k)
  from Some have mem: "k \<in> snd ` set (calls p)"
    by (rule map_of_calls_mem)
  show ?thesis
  proof (cases k)
    case (AfterAnalyzeJob t)
    with assms Some mem show ?thesis
      by (cases r)
        (auto simp: inv_defs step_def forget_def analyzeJob_settled_def clearInterval_def)
  next
    case (AfterAnalyzeResume t)
    with assms Some mem show ?thesis
      by (cases r)
        (auto simp: inv_defs step_def forget_def handleFileUpload_settled_def clearInterval_def)
  next
    case (AfterGenerate t)
    with later_call_known [OF assms mem] Some show ?thesis
      by (cases r)
        (auto simp: page_inv_def job_known_def resume_known_def step_def forget_def
          generateCoverLetter_settled_def generateCoverLetter_failed_def clearInterval_def
          get_member_def split: sum.splits)
  next
    case (AfterDownload ja)
    with later_call_known [OF assms mem] Some show ?thesis
      by (cases r)
        (auto simp: page_inv_def job_known_def resume_known_def step_def forget_def
          downloadPdf_settled_def)
  next
    case AfterSave
    with later_call_known [OF assms mem] Some show ?thesis
      by (cases r)
        (auto simp: page_inv_def job_known_def resume_known_def step_def forget_def
          saveApplication_settled_def)
  qed
qed

lemma inv_exec:
  assumes "page_inv p tr"
  shows "page_inv (fst (exec (p, tr) e)) (snd (exec (p, tr) e))"
proof (cases "\<exists>i r. e = Settle i r")
  case True
  with inv_settle [OF assms] show ?thesis
    by (auto simp: exec_eq)
next
  case False
  with inv_click [OF assms, of e] show ?thesis
    by (simp add: exec_eq)
qed

lemma inv_initial: "page_inv initial []"
  by (simp add: inv_defs initial_def)

lemma run_snoc: "run (evs @ [e]) = exec (run evs) e"
  by (simp add: run_def)

lemma inv_run: "page_inv (fst (run evs)) (snd (run evs))"
proof (induction evs rule: rev_induct)
  case Nil
  show ?case by (simp add: run_def inv_initial)
next
  case (snoc e evs)
  from inv_exec [OF snoc.IH, of e] show ?case
    by (simp add: run_snoc)
qed

subsection \<open>A job analysis that is awaited alone\<close>

text \<open>
  When the analysis is started while no other call is outstanding, then whatever
  happens before its call settles, the page is still in step 1 when it does: the
  only button of step 1 is disabled, and no other call can settle.
\<close>

lemma analyze_awaits:
  assumes "calls p = []" and "enabled p ClickAnalyze"
  shows "awaiting_job (Suc (nextId p)) (fst (step p ClickAnalyze))"
  using assms by (auto simp: awaiting_job_def step_def handler_defs button_defs Let_def)

lemma awaiting_step:
  assumes "awaiting_job i p" and "\<forall>r. e \<noteq> Settle i r"
  shows "awaiting_job i (fst (step p e))"
  using assms
  by (cases e)
    (auto simp: awaiting_job_def step_def handler_defs button_defs Let_def
      split: option.splits if_splits)

lemma awaiting_steps:
  assumes "awaiting_job i p" and "\<forall>e \<in> set es. \<forall>r. e \<noteq> Settle i r"
  shows "awaiting_job i (steps p es)"
  using assms
proof (induction es arbitrary: p)
  case Nil
  then show ?case by simp
next
  case (Cons e es)
  from Cons.prems have "awaiting_job i (fst (step p e))"
    by (simp add: awaiting_step)
  with Cons show ?case by simp
qed

lemma awaiting_job_settles_in_step_1:
  assumes "calls p = []" and "enabled p ClickAnalyze"
    and "\<forall>e \<in> set es. \<forall>r. e \<noteq> Settle (Suc (nextId p)) r"
  shows "currentStep (steps (fst (step p ClickAnalyze)) es) = 1
       \<and> (\<exists>t. map_of (calls (steps (fst (step p ClickAnalyze)) es)) (Suc (nextId p))
                 = Some (AfterAnalyzeJob t))"
proof -
  from analyze_awaits [OF assms(1,2)] assms(3)
  have "awaiting_job (Suc (nextId p)) (steps (fst (step p ClickAnalyze)) es)"
    by (rule awaiting_steps)
  then show ?thesis
    by (auto simp: awaiting_job_def)
qed

subsection \<open>When the job analysis is answered\<close>

text \<open>
  C6, as stated, fails: a job analysis started in step 1 while an earlier one is still
  outstanding is answered when the page has reached step 4, and the page goes to
  step 2.
\<close>

theorem late_job_answer_counterexample:
  "currentStep (fst (run second_analysis)) = 1
   \<and> enabled (fst (run second_analysis)) ClickAnalyze
   \<and> calls (fst (run (second_analysis @ [ClickAnalyze])))
        = [(7, AfterAnalyzeJob 6), (9, AfterAnalyzeJob 8)]
   \<and> currentStep (fst (run late_answer)) = 4
   \<and> calls (fst (run late_answer)) = [(9, AfterAnalyzeJob 8)]
   \<and> currentStep (fst (step (fst (run late_answer)) (Settle 9 (Resolved sample_job)))) = 2
   \<and> currentStep (fst (step (fst (run late_answer)) (Settle 9 (Resolved sample_job))))
        \<noteq> Suc (currentStep (fst (run late_answer)))"
  by code_simp

text \<open>
  C6, amended. When a job-analysis call settles with a response, the response's data is
  stored as the job analysis, the step is set to 2, and the URL, the resume file, the
  resume data and the cover letter are what they were. That is one step forward,
  from step 1 to step 2, when the page is in step 1 then; and it is in step 1 then
  whenever the analysis was started while no other call was outstanding.
\<close>

theorem job_analysis_success_sets_step_2:
  assumes "map_of (calls p) i = Some (AfterAnalyzeJob t)"
    and "step p (Settle i (Resolved d)) = (p', effs)"
  shows "jobAnalysis p' = d \<and> currentStep p' = 2
       \<and> jobUrl p' = jobUrl p \<and> resumeFile p' = resumeFile p
       \<and> resumeData p' = resumeData p \<and> coverLetter p' = coverLetter p
       \<and> (currentStep p = 1 \<longrightarrow> currentStep p' = Suc (currentStep p))
       \<and> (calls q = [] \<and> enabled q ClickAnalyze
            \<and> (\<forall>e \<in> set es. \<forall>r. e \<noteq> Settle (Suc (nextId q)) r) \<longrightarrow>
              currentStep (steps (fst (step q ClickAnalyze)) es) = 1
              \<and> (\<exists>t. map_of (calls (steps (fst (step q ClickAnalyze)) es)) (Suc (nextId q))
                        = Some (AfterAnalyzeJob t)))"
proof -
  from assms have a: "jobAnalysis p' = d \<and> currentStep p' = 2
       \<and> jobUrl p' = jobUrl p \<and> resumeFile p' = resumeFile p
       \<and> resumeData p' = resumeData p \<and> coverLetter p' = coverLetter p"
    by (auto simp: step_def settled_defs)
  then have b: "currentStep p = 1 \<longrightarrow> currentStep p' = Suc (currentStep p)"
    by simp
  from a b awaiting_job_settles_in_step_1 [of q es] show ?thesis
    by blast
qed

theorem job_analysis_success_sets_step_2_witness:
  "map_of (calls (fst (run to_analysis))) 1 = Some (AfterAnalyzeJob 0)
   \<and> currentStep (fst (run to_analysis)) = 1
   \<and> jobAnalysis (fst (step (fst (run to_analysis)) (Settle 1 (Resolved sample_job)))) = sample_job
   \<and> currentStep (fst (step (fst (run to_analysis)) (Settle 1 (Resolved sample_job)))) = 2
   \<and> calls (fst (run url_entered)) = []
   \<and> enabled (fst (run url_entered)) ClickAnalyze
   \<and> nextId (fst (run url_entered)) = 0
   \<and> currentStep (steps (fst (step (fst (run url_entered)) ClickAnalyze))
                          [Tick 0, ChangeUrl ''https://x.de/stelle'']) = 1"
proof -
  have c: "map_of (calls (fst (run to_analysis))) 1 = Some (AfterAnalyzeJob 0)"
    and s: "currentStep (fst (run to_analysis)) = 1"
    and u: "calls (fst (run url_entered)) = []"
    and e: "enabled (fst (run url_entered)) ClickAnalyze"
    and n: "nextId (fst (run url_entered)) = 0"
    by code_simp+
  from n have o: "\<forall>e \<in> set [Tick 0, ChangeUrl ''https://x.de/stelle''].
      \<forall>r. e \<noteq> Settle (Suc (nextId (fst (run url_entered)))) r"
    by simp
  from job_analysis_success_sets_step_2 [OF c surjective_pairing,
      of sample_job "fst (run url_entered)" "[Tick 0, ChangeUrl ''https://x.de/stelle'']"]
    s u e o
  have "jobAnalysis (fst (step (fst (run to_analysis)) (Settle 1 (Resolved sample_job)))) = sample_job
   \<and> currentStep (fst (step (fst (run to_analysis)) (Settle 1 (Resolved sample_job)))) = 2
   \<and> currentStep (steps (fst (step (fst (run url_entered)) ClickAnalyze))
                          [Tick 0, ChangeUrl ''https://x.de/stelle'']) = 1"
    by blast
  with c s u e n show ?thesis
    by blast
qed

subsection \<open>The requests in the log\<close>

lemma sourced_mono: "sourced pre x \<Longrightarrow> sourced (pre @ us) x"
  by (induction pre x rule: sourced.induct) auto

lemma log_extend:
  assumes old: "\<And>pre x post. tr = pre @ x # post \<Longrightarrow> sourced pre x"
    and new: "\<And>x. x \<in> set new \<Longrightarrow> sourced tr x"
    and eq: "tr @ new = pre @ x # post"
  shows "sourced pre x"
proof -
  from eq obtain us where
    "tr = pre @ us \<and> us @ new = x # post \<or> tr @ us = pre \<and> new = us @ x # post"
    by (auto simp: append_eq_append_conv2)
  then show ?thesis
  proof
    assume a: "tr = pre @ us \<and> us @ new = x # post"
    show ?thesis
    proof (cases us)
      case Nil
      with a have "pre = tr" and "x \<in> set new"
        by auto
      with new show ?thesis by simp
    next
      case (Cons y ys)
      with a have "tr = pre @ x # ys"
        by simp
      then show ?thesis by (rule old)
    qed
  next
    assume a: "tr @ us = pre \<and> new = us @ x # post"
    then have "x \<in> set new"
      by simp
    then have "sourced tr x"
      by (rule new)
    then have "sourced (tr @ us) x"
      by (rule sourced_mono)
    with a show ?thesis by simp
  qed
qed

lemma settle_no_request:
  "eff \<in> set (snd (settle k r p)) \<Longrightarrow> \<not> is_request eff"
  by (cases k; cases r)
    (auto simp: settled_defs get_member_def Let_def split: sum.splits if_splits)

lemma sourced_no_request: "\<not> is_request eff \<Longrightarrow> sourced tr (Did eff)"
  by (cases eff) auto

lemma step_sourced:
  assumes "page_inv p tr"
    and "x \<in> set (answered p e @ map Did (snd (step p e)))"
  shows "sourced tr x"
proof (cases e)
  case (Settle i r)
  show ?thesis
  proof (cases x)
    case (Answer ep out)
    then show ?thesis by simp
  next
    case (Did eff)
    with assms(2) Settle have "eff \<in> set (snd (step p (Settle i r)))"
      by (auto split: option.splits)
    then have "\<not> is_request eff"
      by (auto simp: step_def split: option.splits if_splits dest: settle_no_request)
    with Did show ?thesis
      by (simp add: sourced_no_request)
  qed
next
  case ClickGenerate
  with assms show ?thesis
    by (auto simp: step_def page_inv_def job_known_def resume_known_def handler_defs button_defs
        Let_def split: if_splits)
next
  case ClickSave
  with assms show ?thesis
    by (auto simp: step_def page_inv_def job_known_def resume_known_def handler_defs button_defs
        export_body_def Let_def split: if_splits)
next
  case ClickDownload
  with assms show ?thesis
    by (auto simp: step_def page_inv_def job_known_def resume_known_def handler_defs button_defs
        export_body_def Let_def split: if_splits)
qed (use assms in \<open>auto simp: step_def handler_defs Let_def split: list.splits if_splits\<close>)

lemma run_sourced:
  "snd (run evs) = pre @ x # post \<Longrightarrow> sourced pre x"
proof (induction evs arbitrary: pre x post rule: rev_induct)
  case Nil
  then show ?case by (simp add: run_def)
next
  case (snoc e evs)
  obtain p tr where r: "run evs = (p, tr)"
    by (cases "run evs")
  with inv_run [of evs] have i: "page_inv p tr"
    by simp
  from snoc.prems r have eq: "tr @ (answered p e @ map Did (snd (step p e))) = pre @ x # post"
    by (simp add: run_snoc exec_eq)
  show ?case
  proof (rule log_extend [OF _ _ eq])
    fix pre' x' post'
    assume "tr = pre' @ x' # post'"
    with snoc.IH r show "sourced pre' x'"
      by simp
  next
    fix x'
    assume "x' \<in> set (answered p e @ map Did (snd (step p e)))"
    with i show "sourced tr x'"
      by (rule step_sourced)
  qed
qed

lemma settle_clears_loading:
  "map_of (calls p) i \<noteq> None \<Longrightarrow> \<not> loading (fst (step p (Settle i r)))"
proof -
  assume "map_of (calls p) i \<noteq> None"
  then obtain k where k: "map_of (calls p) i = Some k"
    by auto
  then show ?thesis
    by (cases k; cases r)
      (auto simp: step_def settled_defs get_member_def Let_def split: sum.splits if_splits)
qed

lemma request_sets_loading:
  "filter is_request (snd (step p e)) \<noteq> [] \<Longrightarrow> loading (fst (step p e))"
proof (cases e)
  case (Settle i r)
  have "filter is_request (snd (step p (Settle i r))) = []"
    by (auto simp: step_def filter_empty_conv split: option.splits dest: settle_no_request)
  with Settle show "filter is_request (snd (step p e)) \<noteq> [] \<Longrightarrow> loading (fst (step p e))"
    by simp
qed (auto simp: step_def handler_defs Let_def split: if_splits list.splits option.splits)

subsection \<open>Where the posted analyses come from\<close>

text \<open>
  C1, as stated, fails: the dashboard has the listed records from the backend, and its
  PDF download posts an empty object of its own as job analysis and as resume data,
  which is the job analysis or resume data of none of them.
\<close>

theorem dashboard_download_counterexample:
  "applications (fst (fetchApplications_settled (Resolved [app1, app2]) initial_d)) = [app1, app2]
   \<and> map (body_field ''job_analysis'') (downloadPdf_d app1) = [JObj []]
   \<and> map (body_field ''resume_data'') (downloadPdf_d app1) = [JObj []]
   \<and> job_analysis app1 = sample_job \<and> resume_data app1 = sample_resume
   \<and> JObj [] \<notin> job_analysis ` set [app1, app2]
   \<and> JObj [] \<notin> resume_data ` set [app1, app2]"
  by (simp add: fetchApplications_settled_def initial_d_def downloadPdf_d_def app1_def app2_def
      sample_job_def sample_resume_def)

text \<open>
  C1, amended. In every run of the generator page, a request to generate the cover
  letter, to render the PDF or to save the application posts as \<open>job_analysis\<close> the
  data of an earlier answer of the analyze-job call and as \<open>resume_data\<close> the data
  of an earlier answer of the analyze-resume call, as they came. The dashboard's PDF
  download posts an empty object for both, and the record's own \<open>job_url\<close>,
  \<open>cover_letter\<close>, \<open>company_name\<close> and \<open>job_title\<close>.
\<close>

theorem generator_forwards_analyses:
  assumes "snd (run evs) = pre @ Did (Request ep b) # post"
    and "ep = GenerateCoverLetter \<or> ep = GeneratePdf \<or> ep = ApplicationsPost"
  shows "(\<exists>jb. b = Json jb
            \<and> Answer AnalyzeJob (Resolved (get_prop jb ''job_analysis'')) \<in> set pre
            \<and> Answer AnalyzeResume (Resolved (get_prop jb ''resume_data'')) \<in> set pre)
       \<and> map (body_field ''job_analysis'') (downloadPdf_d app) = [JObj []]
       \<and> map (body_field ''resume_data'') (downloadPdf_d app) = [JObj []]
       \<and> map (body_field ''job_url'') (downloadPdf_d app) = [job_url app]
       \<and> map (body_field ''cover_letter'') (downloadPdf_d app) = [cover_letter app]
       \<and> map (body_field ''company_name'') (downloadPdf_d app) = [company_name app]
       \<and> map (body_field ''job_title'') (downloadPdf_d app) = [job_title app]"
proof -
  from assms(1) have "sourced pre (Did (Request ep b))"
    by (rule run_sourced)
  with assms(2) have "\<exists>jb. b = Json jb
            \<and> Answer AnalyzeJob (Resolved (get_prop jb ''job_analysis'')) \<in> set pre
            \<and> Answer AnalyzeResume (Resolved (get_prop jb ''resume_data'')) \<in> set pre"
    by (cases b) auto
  then show ?thesis
    by (simp add: downloadPdf_d_def)
qed

theorem generator_forwards_analyses_witness:
  "snd (run to_generate)
     = log_before_generate
       @ Did (Request GenerateCoverLetter
               (Json (JObj [(''job_analysis'', sample_job), (''resume_data'', sample_resume)]))) # []
   \<and> Answer AnalyzeJob (Resolved sample_job) \<in> set log_before_generate
   \<and> Answer AnalyzeResume (Resolved sample_resume) \<in> set log_before_generate"
proof -
  have l: "snd (run to_generate)
     = log_before_generate
       @ Did (Request GenerateCoverLetter
               (Json (JObj [(''job_analysis'', sample_job), (''resume_data'', sample_resume)]))) # []"
    by code_simp
  from generator_forwards_analyses [OF l] l show ?thesis
    by simp
qed

subsection \<open>When the generation can be started\<close>

text \<open>
  C9, as stated, fails: after two overlapping uploads of which the first is answered,
  the page is in step 2, a call is still outstanding, and the button is not disabled.
\<close>

theorem overlapping_uploads_counterexample:
  "currentStep (fst (run overlapping)) = 2
   \<and> calls (fst (run overlapping)) = [(5, AfterAnalyzeResume 4)]
   \<and> \<not> generate_disabled (fst (run overlapping))
   \<and> enabled (fst (run overlapping)) ClickGenerate"
  by code_simp

text \<open>
  C9, amended. In every reachable state the button is disabled when no truthy resume
  data is stored and when the loading flag is set; the flag is set by every step that issues a
  call, and is set only while some call is outstanding (it is cleared when any call
  settles). The button is enabled only when truthy resume data is stored that an
  answer of the analyze-resume call brought, and every generation request in
  the log comes after such an answer.
\<close>

theorem generation_needs_resume:
  assumes "run evs = (p, tr)"
  shows "(\<not> truthy (resumeData p) \<longrightarrow> generate_disabled p)
       \<and> (loading p \<longrightarrow> generate_disabled p \<and> calls p \<noteq> [])
       \<and> (filter is_request (snd (step p e)) \<noteq> [] \<longrightarrow> generate_disabled (fst (step p e)))
       \<and> (map_of (calls p) i \<noteq> None \<longrightarrow> \<not> loading (fst (step p (Settle i r))))
       \<and> (enabled p ClickGenerate \<longrightarrow>
            truthy (resumeData p) \<and> Answer AnalyzeResume (Resolved (resumeData p)) \<in> set tr)
       \<and> (\<forall>pre b post. tr = pre @ Did (Request GenerateCoverLetter b) # post \<longrightarrow>
            (\<exists>d. truthy d \<and> Answer AnalyzeResume (Resolved d) \<in> set pre))"
proof -
  from inv_run [of evs] assms have i: "page_inv p tr"
    by simp
  have a: "\<not> truthy (resumeData p) \<longrightarrow> generate_disabled p"
    by (simp add: generate_disabled_def)
  from i have b: "loading p \<longrightarrow> generate_disabled p \<and> calls p \<noteq> []"
    by (simp add: generate_disabled_def page_inv_def)
  have c: "filter is_request (snd (step p e)) \<noteq> [] \<longrightarrow> generate_disabled (fst (step p e))"
    using request_sets_loading [of p e] by (simp add: generate_disabled_def)
  from i have d: "enabled p ClickGenerate \<longrightarrow>
      truthy (resumeData p) \<and> Answer AnalyzeResume (Resolved (resumeData p)) \<in> set tr"
    by (auto simp: generate_disabled_def page_inv_def resume_known_def)
  have e: "\<exists>d. truthy d \<and> Answer AnalyzeResume (Resolved d) \<in> set pre"
    if "tr = pre @ Did (Request GenerateCoverLetter b) # post" for pre b post
  proof -
    from that assms have "snd (run evs) = pre @ Did (Request GenerateCoverLetter b) # post"
      by simp
    then have "sourced pre (Did (Request GenerateCoverLetter b))"
      by (rule run_sourced)
    then show ?thesis
      by (cases b) auto
  qed
  from a b c d e settle_clears_loading [of p i r] show ?thesis
    by blast
qed

theorem generation_needs_resume_witness:
  "enabled (fst (run overlapping)) ClickGenerate
   \<and> truthy (resumeData (fst (run overlapping)))
   \<and> Answer AnalyzeResume (Resolved (resumeData (fst (run overlapping)))) \<in> set (snd (run overlapping))
   \<and> \<not> truthy (resumeData (fst (run to_upload)))
   \<and> generate_disabled (fst (run to_upload))
   \<and> filter is_request (snd (step (fst (run to_upload)) (UploadFiles [sample_cv]))) \<noteq> []
   \<and> generate_disabled (fst (step (fst (run to_upload)) (UploadFiles [sample_cv])))
   \<and> loading (fst (run to_generate))
   \<and> calls (fst (run to_generate)) \<noteq> []
   \<and> map_of (calls (fst (run to_generate))) 5 \<noteq> None
   \<and> \<not> loading (fst (step (fst (run to_generate)) (Settle 5 (Rejected None))))
   \<and> snd (run to_generate)
        = log_before_generate
          @ Did (Request GenerateCoverLetter
                  (Json (JObj [(''job_analysis'', sample_job), (''resume_data'', sample_resume)]))) # []
   \<and> (\<exists>d. truthy d \<and> Answer AnalyzeResume (Resolved d) \<in> set log_before_generate)"
proof -
  have g: "enabled (fst (run overlapping)) ClickGenerate"
    and n: "\<not> truthy (resumeData (fst (run to_upload)))"
    and u: "filter is_request (snd (step (fst (run to_upload)) (UploadFiles [sample_cv]))) \<noteq> []"
    and l: "loading (fst (run to_generate))"
    and m: "map_of (calls (fst (run to_generate))) 5 \<noteq> None"
    and t: "snd (run to_generate)
        = log_before_generate
          @ Did (Request GenerateCoverLetter
                  (Json (JObj [(''job_analysis'', sample_job), (''resume_data'', sample_resume)]))) # []"
    by code_simp+
  from generation_needs_resume [OF surjective_pairing, of overlapping] g
  have 1: "truthy (resumeData (fst (run overlapping)))
      \<and> Answer AnalyzeResume (Resolved (resumeData (fst (run overlapping)))) \<in> set (snd (run overlapping))"
    by simp
  from generation_needs_resume [OF surjective_pairing, of to_upload "UploadFiles [sample_cv]"] n u
  have 2: "generate_disabled (fst (run to_upload))
      \<and> generate_disabled (fst (step (fst (run to_upload)) (UploadFiles [sample_cv])))"
    by simp
  from generation_needs_resume [OF surjective_pairing, of to_generate _ 5 "Rejected None"] l m t
  have 3: "calls (fst (run to_generate)) \<noteq> []
      \<and> \<not> loading (fst (step (fst (run to_generate)) (Settle 5 (Rejected None))))
      \<and> (\<exists>d. truthy d \<and> Answer AnalyzeResume (Resolved d) \<in> set log_before_generate)"
    by blast
  from g n u l m t 1 2 3 show ?thesis
    by blast
qed

section \<open>The actions of the last step\<close>

text \<open>
  C2, as stated, fails: in step 4 with no call outstanding, saving is available; the
  download sets the loading flag, which disables saving, and editing takes the page to
  step 2, where saving is not offered.
\<close>

theorem download_disables_save_counterexample:
  "currentStep (fst (run to_export)) = 4
   \<and> \<not> loading (fst (run to_export))
   \<and> enabled (fst (run to_export)) ClickSave
   \<and> loading (fst (step (fst (run to_export)) ClickDownload))
   \<and> \<not> enabled (fst (step (fst (run to_export)) ClickDownload)) ClickSave
   \<and> \<not> enabled (fst (step (fst (run to_export)) ClickEdit)) ClickSave"
  by code_simp

lemma export_click:
  assumes "enabled p e" and "e = ClickSave \<or> e = ClickDownload"
  shows "loading (fst (step p e)) \<and> \<not> enabled (fst (step p e)) ClickSave
       \<and> \<not> enabled (fst (step p e)) ClickDownload \<and> enabled (fst (step p e)) ClickEdit
       \<and> snd (step p e)
           = [Request (if e = ClickSave then ApplicationsPost else GeneratePdf) (Json (export_body p))]"
  using assms by (auto simp: step_def handler_defs button_defs Let_def)

lemma export_settle:
  assumes "map_of (calls p) i = Some k"
    and "endpoint_of k = ApplicationsPost \<or> endpoint_of k = GeneratePdf"
  shows "form_data (fst (step p (Settle i r))) = form_data p
       \<and> \<not> loading (fst (step p (Settle i r)))"
  using assms
  by (cases k; cases r) (auto simp: step_def form_data_def settled_defs)

text \<open>
  C2, amended. Save, download and edit, and the settling of a save or download call,
  leave the form state (URL, job analysis, resume file, resume data, cover letter) as
  it is, and what save and download post is a function of that form state alone. Save
  and download share the loading flag: both are available exactly in step 4 while
  the flag is clear, starting either sets it and so disables both, and the settling of
  either call clears it. Edit is available in step 4 whatever the flag, issues no
  call, and takes the page to step 2, where save and download are not offered.
\<close>

theorem export_actions_share_loading:
  "form_data (fst (step p ClickEdit)) = form_data p
   \<and> form_data (fst (step p ClickSave)) = form_data p
   \<and> form_data (fst (step p ClickDownload)) = form_data p
   \<and> (map_of (calls p) i = Some k \<and> (endpoint_of k = ApplicationsPost \<or> endpoint_of k = GeneratePdf)
        \<longrightarrow> form_data (fst (step p (Settle i r))) = form_data p
            \<and> \<not> loading (fst (step p (Settle i r))))
   \<and> (form_data q = form_data p \<longrightarrow> export_body q = export_body p)
   \<and> enabled p ClickSave = (mounted p \<and> currentStep p = 4 \<and> \<not> loading p)
   \<and> enabled p ClickDownload = (mounted p \<and> currentStep p = 4 \<and> \<not> loading p)
   \<and> enabled p ClickEdit = (mounted p \<and> currentStep p = 4)
   \<and> (enabled p ClickSave \<longrightarrow>
        loading (fst (step p ClickSave))
        \<and> \<not> enabled (fst (step p ClickSave)) ClickSave
        \<and> \<not> enabled (fst (step p ClickSave)) ClickDownload
        \<and> enabled (fst (step p ClickSave)) ClickEdit
        \<and> snd (step p ClickSave) = [Request ApplicationsPost (Json (export_body p))])
   \<and> (enabled p ClickDownload \<longrightarrow>
        loading (fst (step p ClickDownload))
        \<and> \<not> enabled (fst (step p ClickDownload)) ClickSave
        \<and> \<not> enabled (fst (step p ClickDownload)) ClickDownload
        \<and> enabled (fst (step p ClickDownload)) ClickEdit
        \<and> snd (step p ClickDownload) = [Request GeneratePdf (Json (export_body p))])
   \<and> (enabled p ClickEdit \<longrightarrow>
        currentStep (fst (step p ClickEdit)) = 2
        \<and> \<not> enabled (fst (step p ClickEdit)) ClickSave
        \<and> \<not> enabled (fst (step p ClickEdit)) ClickDownload
        \<and> snd (step p ClickEdit) = [])"
proof -
  have f: "form_data (fst (step p ClickEdit)) = form_data p"
    "form_data (fst (step p ClickSave)) = form_data p"
    "form_data (fst (step p ClickDownload)) = form_data p"
    by (simp_all add: step_def form_data_def handler_defs Let_def)
  have b: "form_data q = form_data p \<longrightarrow> export_body q = export_body p"
    by (simp add: form_data_def export_body_def)
  have n: "enabled p ClickSave = (mounted p \<and> currentStep p = 4 \<and> \<not> loading p)"
    "enabled p ClickDownload = (mounted p \<and> currentStep p = 4 \<and> \<not> loading p)"
    "enabled p ClickEdit = (mounted p \<and> currentStep p = 4)"
    by (simp_all add: button_defs)
  have d: "enabled p ClickEdit \<longrightarrow>
        currentStep (fst (step p ClickEdit)) = 2
        \<and> \<not> enabled (fst (step p ClickEdit)) ClickSave
        \<and> \<not> enabled (fst (step p ClickEdit)) ClickDownload
        \<and> snd (step p ClickEdit) = []"
    by (simp add: step_def)
  from f b n d export_settle [of p i k r] export_click [of p ClickSave]
    export_click [of p ClickDownload]
  show ?thesis
    by simp
qed

theorem export_actions_share_loading_witness:
  "enabled (fst (run to_export)) ClickSave
   \<and> enabled (fst (run to_export)) ClickDownload
   \<and> enabled (fst (run to_export)) ClickEdit
   \<and> loading (fst (step (fst (run to_export)) ClickSave))
   \<and> \<not> enabled (fst (step (fst (run to_export)) ClickSave)) ClickDownload
   \<and> \<not> enabled (fst (step (fst (run to_export)) ClickDownload)) ClickSave
   \<and> form_data (fst (step (fst (run to_export)) ClickSave)) = form_data (fst (run to_export))
   \<and> export_body (fst (step (fst (run to_export)) ClickDownload)) = export_body (fst (run to_export))
   \<and> currentStep (fst (step (fst (run to_export)) ClickEdit)) = 2
   \<and> map_of (calls (fst (run to_saving))) 6 = Some AfterSave
   \<and> form_data (fst (step (fst (run to_saving)) (Settle 6 (Rejected None))))
        = form_data (fst (run to_saving))
   \<and> \<not> loading (fst (step (fst (run to_saving)) (Settle 6 (Rejected None))))"
proof -
  have s: "enabled (fst (run to_export)) ClickSave"
    and d: "enabled (fst (run to_export)) ClickDownload"
    and e: "enabled (fst (run to_export)) ClickEdit"
    and c: "map_of (calls (fst (run to_saving))) 6 = Some AfterSave"
    by code_simp+
  from export_actions_share_loading
         [of "fst (run to_export)" _ _ _ "fst (step (fst (run to_export)) ClickDownload)"] s d e
  have 1: "loading (fst (step (fst (run to_export)) ClickSave))
      \<and> \<not> enabled (fst (step (fst (run to_export)) ClickSave)) ClickDownload
      \<and> \<not> enabled (fst (step (fst (run to_export)) ClickDownload)) ClickSave
      \<and> form_data (fst (step (fst (run to_export)) ClickSave)) = form_data (fst (run to_export))
      \<and> export_body (fst (step (fst (run to_export)) ClickDownload))
          = export_body (fst (run to_export))
      \<and> currentStep (fst (step (fst (run to_export)) ClickEdit)) = 2"
    by simp
  from export_actions_share_loading [of "fst (run to_saving)" 6 AfterSave "Rejected None"] c
  have 2: "form_data (fst (step (fst (run to_saving)) (Settle 6 (Rejected None))))
        = form_data (fst (run to_saving))
      \<and> \<not> loading (fst (step (fst (run to_saving)) (Settle 6 (Rejected None))))"
    by simp
  from s d e c 1 2 show ?thesis
    by blast
qed

end
